theory Spec2Isabelle
  imports Complex_Main "HOL-Library.Multiset"
begin

section \<open>Data model of the MagmaConnect plugin\<close>

text \<open>
  The plugin (class \<open>MagmaConnect\<close>) keeps three caches of coordinates and patches two
  methods of the host's manager.  JavaScript numbers are modelled by the reals, strings by
  \<open>string\<close> (all characters the code inspects are ASCII), \<open>undefined\<close> by \<open>None\<close>.
\<close>

record LatLon =
  lat :: real
  lon :: real

text \<open>The union type \<open>LatLon | { region: string }\<close> of overrides and resolver results.\<close>

datatype loc_input = Coord LatLon | Region string

text \<open>
  \<open>NodeOptions\<close> and \<open>PlayerOptions\<close> belong to the host library; the plugin reads
  \<open>host\<close>, \<open>identifier\<close> (here \<open>node_identifier\<close>), \<open>guildId\<close> and \<open>nodeIdentifier\<close> only.  All other fields
  live in the extension slot of the record.
\<close>

record NodeOptions =
  host :: string
  node_identifier :: "string option"

record PlayerOptions =
  guildId :: string
  nodeIdentifier :: "string option"

section \<open>Endpoint region parser\<close>

text \<open>\<open>String.prototype.split\<close> with a one-character separator: an empty string gives one
  empty segment, and \<open>n\<close> separators give \<open>n + 1\<close> segments.\<close>

fun split_on :: "char \<Rightarrow> string \<Rightarrow> string list" where
  "split_on sep [] = [[]]"
| "split_on sep (c # cs) =
     (if c = sep then [] # split_on sep cs
      else (c # hd (split_on sep cs)) # tl (split_on sep cs))"

text \<open>The character class \<open>\d\<close> of a JavaScript regular expression without the unicode flag.\<close>

definition is_digit :: "char \<Rightarrow> bool" where
  "is_digit c = (c \<in> set ''0123456789'')"

text \<open>
  \<open>first.replace(/\d+$/, '')\<close>: the regular expression is tried at each start position from
  the left; at a position it matches when the rest of the string is a non-empty run of
  digits up to the end.  The first match is replaced by the empty string.
\<close>

fun replace_trailing_digits :: "string \<Rightarrow> string" where
  "replace_trailing_digits [] = []"
| "replace_trailing_digits (c # cs) =
     (if is_digit c \<and> list_all is_digit cs then []
      else c # replace_trailing_digits cs)"

definition parseDiscordRegionFromEndpoint :: "string \<Rightarrow> string option" where
  "parseDiscordRegionFromEndpoint endpoint =
     (let host = hd (split_on (CHR '':'') endpoint);
          parts = split_on (CHR ''.'') host
      in if length parts < 3 then None
         else let first = hd parts;
                  region = replace_trailing_digits first
              in if region = [] then None else Some region)"

section \<open>Coordinate and region model\<close>


definition to_lower_char :: "char \<Rightarrow> char" where
  "to_lower_char c =
     (case map_of (zip ''ABCDEFGHIJKLMNOPQRSTUVWXYZ'' ''abcdefghijklmnopqrstuvwxyz'') c of
        Some l \<Rightarrow> l
      | None \<Rightarrow> c)"

definition toLowerCase :: "string \<Rightarrow> string" where
  "toLowerCase s = map to_lower_char s"

definition region_map :: "(string \<times> LatLon) list" where
  "region_map =
    [(''us-east'', \<lparr>lat = 39.0, lon = -77.0\<rparr>),
     (''us-west'', \<lparr>lat = 37.4, lon = -122.0\<rparr>),
     (''us-central'', \<lparr>lat = 41.6, lon = -93.6\<rparr>),
     (''us-south'', \<lparr>lat = 29.4, lon = -98.5\<rparr>),
     (''brazil'', \<lparr>lat = -23.5, lon = -46.6\<rparr>),
     (''singapore'', \<lparr>lat = 1.29, lon = 103.85\<rparr>),
     (''hongkong'', \<lparr>lat = 22.32, lon = 114.17\<rparr>),
     (''hong-kong'', \<lparr>lat = 22.32, lon = 114.17\<rparr>),
     (''russia'', \<lparr>lat = 55.75, lon = 37.62\<rparr>),
     (''europe'', \<lparr>lat = 50.11, lon = 8.68\<rparr>),
     (''eu-central'', \<lparr>lat = 50.11, lon = 8.68\<rparr>),
     (''eu-west'', \<lparr>lat = 48.86, lon = 2.35\<rparr>),
     (''sydney'', \<lparr>lat = -33.86, lon = 151.21\<rparr>),
     (''japan'', \<lparr>lat = 35.68, lon = 139.69\<rparr>),
     (''india'', \<lparr>lat = 19.08, lon = 72.88\<rparr>),
     (''southafrica'', \<lparr>lat = -26.2, lon = 28.04\<rparr>),
     (''south-africa'', \<lparr>lat = -26.2, lon = 28.04\<rparr>),
     (''dubai'', \<lparr>lat = 25.2, lon = 55.27\<rparr>),
     (''frankfurt'', \<lparr>lat = 50.11, lon = 8.68\<rparr>),
     (''london'', \<lparr>lat = 51.51, lon = -0.13\<rparr>),
     (''amsterdam'', \<lparr>lat = 52.37, lon = 4.9\<rparr>),
     (''mumbai'', \<lparr>lat = 19.08, lon = 72.88\<rparr>),
     (''chicago'', \<lparr>lat = 41.88, lon = -87.62\<rparr>),
     (''atlanta'', \<lparr>lat = 33.75, lon = -84.39\<rparr>),
     (''dallas'', \<lparr>lat = 32.78, lon = -96.8\<rparr>),
     (''miami'', \<lparr>lat = 25.77, lon = -80.19\<rparr>),
     (''newyork'', \<lparr>lat = 40.71, lon = -74.01\<rparr>),
     (''new-york'', \<lparr>lat = 40.71, lon = -74.01\<rparr>),
     (''paris'', \<lparr>lat = 48.86, lon = 2.35\<rparr>),
     (''stockholm'', \<lparr>lat = 59.33, lon = 18.06\<rparr>),
     (''seoul'', \<lparr>lat = 37.57, lon = 126.98\<rparr>),
     (''toronto'', \<lparr>lat = 43.65, lon = -79.38\<rparr>),
     (''montreal'', \<lparr>lat = 45.5, lon = -73.57\<rparr>)]"

text \<open>
  What an expression of type \<open>LatLon | undefined\<close> holds when it comes from the region table:
  \<open>undefined\<close>, a coordinate, or a member that the object literal inherits from
  \<open>Object.prototype\<close> (a truthy value that is no coordinate).
\<close>

datatype loc_value = Undefined | Loc LatLon | ProtoMember string

text \<open>
  The members of \<open>Object.prototype\<close> whose names are lower case.  The other members
  (\<open>toString\<close>, \<open>valueOf\<close>, \<open>hasOwnProperty\<close>, \<open>isPrototypeOf\<close>, \<open>propertyIsEnumerable\<close>,
  \<open>toLocaleString\<close>, \<open>__defineGetter__\<close>, \<open>__defineSetter__\<close>, \<open>__lookupGetter__\<close>,
  \<open>__lookupSetter__\<close>) have a capital letter, so a lower-cased key never names them.
\<close>

definition inherited_keys :: "string list" where
  "inherited_keys = [''constructor'', ''__proto__'']"

text \<open>
  \<open>regionToLatLon\<close> returns \<open>map[key]\<close> for the lower-cased key: the entry of the object
  literal, else an inherited member, else \<open>undefined\<close>.
\<close>

definition regionToLatLon :: "string \<Rightarrow> loc_value" where
  "regionToLatLon region =
     (let key = toLowerCase region in
      case map_of region_map key of
        Some ll \<Rightarrow> Loc ll
      | None \<Rightarrow> if key \<in> set inherited_keys then ProtoMember key else Undefined)"

text \<open>\<open>normalizeLoc\<close>: a value with a \<open>lat\<close> field is returned as it is, a region wrapper
  is looked up in the table.\<close>

fun normalizeLoc :: "loc_input \<Rightarrow> loc_value" where
  "normalizeLoc (Coord v) = Loc v"
| "normalizeLoc (Region r) = (let ll = regionToLatLon r in ll)"

text \<open>A cached value of type \<open>LatLon | undefined\<close> as a \<open>loc_value\<close>.\<close>

fun cached_value :: "LatLon option \<Rightarrow> loc_value" where
  "cached_value None = Undefined"
| "cached_value (Some c) = Loc c"

section \<open>Great-circle distance\<close>

text \<open>
  \<open>haversineKm\<close> over the reals, the exact arithmetic that the floating-point code
  approximates.  For latitudes in \<open>[-90, 90]\<close> the value \<open>h\<close> lies in \<open>[0, 1]\<close>.
\<close>

definition toRad :: "real \<Rightarrow> real" where
  "toRad x = (x * pi) / 180"

definition haversineKm :: "LatLon \<Rightarrow> LatLon \<Rightarrow> real" where
  "haversineKm a b =
     (let R = 6371;
          dLat = toRad (lat b - lat a);
          dLon = toRad (lon b - lon a);
          lat1 = toRad (lat a);
          lat2 = toRad (lat b);
          sinDLat = sin (dLat / 2);
          sinDLon = sin (dLon / 2);
          h = sinDLat * sinDLat + cos lat1 * cos lat2 * sinDLon * sinDLon
      in 2 * R * arcsin (min 1 (sqrt h)))"

text \<open>The declared ranges of a Coordinate.\<close>

definition valid_coord :: "LatLon \<Rightarrow> bool" where
  "valid_coord c = (- 90 \<le> lat c \<and> lat c \<le> 90 \<and> - 180 \<le> lon c \<and> lon c \<le> 180)"

section \<open>Errors, promises and JSON values\<close>

text \<open>Every exception or promise rejection of the source is a value of this type.\<close>

datatype js_error =
    TypeError
  | SyntaxError
  | HttpError nat
  | RequestError
  | RequestTimeout
  | CallbackRejected

text \<open>
  A value that is either available now or a promise.  A promise carries the outcome it
  settles with later: \<open>Inl\<close> for a rejection, \<open>Inr\<close> for the resolved value.
\<close>

datatype ('a, 'b) sync_or_async = Plain 'a | Promise "js_error + 'b"

text \<open>\<open>resolveSyncOrAsync\<close>: a promise-like (truthy, with a \<open>then\<close> function) is dropped,
  anything else is returned as it is.\<close>

fun resolveSyncOrAsync :: "('a option, 'b) sync_or_async \<Rightarrow> 'a option" where
  "resolveSyncOrAsync (Promise p) = None"
| "resolveSyncOrAsync (Plain v) = v"

text \<open>The result of \<open>JSON.parse\<close>.  An object is the list of its members.\<close>

datatype json =
    JNull
  | JBool bool
  | JNum real
  | JStr string
  | JArr "json list"
  | JObj "(string \<times> json) list"

text \<open>JavaScript truthiness of a parsed JSON value (\<open>JSON.parse\<close> never yields NaN).\<close>

fun truthy :: "json \<Rightarrow> bool" where
  "truthy JNull = False"
| "truthy (JBool b) = b"
| "truthy (JNum x) = (x \<noteq> 0)"
| "truthy (JStr s) = (s \<noteq> [])"
| "truthy (JArr xs) = True"
| "truthy (JObj ms) = True"

text \<open>
  The operator \<open>key in data\<close>: a TypeError when \<open>data\<close> is not an object.  The keys asked
  for are never properties of an array.
\<close>

fun js_in :: "string \<Rightarrow> json \<Rightarrow> js_error + bool" where
  "js_in k (JObj ms) = Inr (k \<in> fst ` set ms)"
| "js_in k (JArr xs) = Inr False"
| "js_in k v = Inl TypeError"

text \<open>Property access \<open>data.key\<close> on a truthy value; \<open>None\<close> is \<open>undefined\<close>.\<close>

fun js_get :: "json \<Rightarrow> string \<Rightarrow> json option" where
  "js_get (JObj ms) k = map_of ms k"
| "js_get v k = None"

fun truthy_opt :: "json option \<Rightarrow> bool" where
  "truthy_opt None = False"
| "truthy_opt (Some v) = truthy v"

text \<open>\<open>typeof v === 'number'\<close>, giving the number.\<close>

fun as_number :: "json option \<Rightarrow> real option" where
  "as_number (Some (JNum x)) = Some x"
| "as_number v = None"

section \<open>External geo lookup\<close>

text \<open>What the network does with one GET request.\<close>

datatype http_body = EmptyBody | JsonBody json | InvalidBody

datatype http_outcome =
    ConnectionFailed
  | TimedOut
  | Response nat http_body

datatype url = IpWho string | IpApi string

text \<open>
  \<open>fetchJson\<close>: the promise rejects on a connection error, on a timeout, on a status of 400
  or more and on a body that \<open>JSON.parse\<close> refuses; an empty body resolves to \<open>{}\<close>.
\<close>

fun fetchJson :: "(url \<Rightarrow> http_outcome) \<Rightarrow> url \<Rightarrow> js_error + json" where
  "fetchJson net u =
     (case net u of
        ConnectionFailed \<Rightarrow> Inl RequestError
      | TimedOut \<Rightarrow> Inl RequestTimeout
      | Response statusCode body \<Rightarrow>
          if statusCode \<ge> 400 then Inl (HttpError statusCode)
          else (case body of
                  EmptyBody \<Rightarrow> Inr (JObj [])
                | JsonBody j \<Rightarrow> Inr j
                | InvalidBody \<Rightarrow> Inl SyntaxError))"

text \<open>\<open>promise.catch(() => undefined)\<close>.\<close>

fun catch_undefined :: "js_error + 'a \<Rightarrow> 'a option" where
  "catch_undefined (Inl e) = None"
| "catch_undefined (Inr v) = Some v"

text \<open>The two shape checks of the loop body of \<open>geoByHost\<close>, in the source's order.  The
  result \<open>Inr None\<close> means that neither check accepted the payload.\<close>

definition geoByHost_check :: "json \<Rightarrow> js_error + LatLon option" where
  "geoByHost_check data =
     (case js_in ''success'' data of
        Inl e \<Rightarrow> Inl e
      | Inr has_success \<Rightarrow>
          (case (has_success \<and> truthy_opt (js_get data ''success''),
                 as_number (js_get data ''latitude''), as_number (js_get data ''longitude'')) of
             (True, Some la, Some lo) \<Rightarrow> Inr (Some \<lparr>lat = la, lon = lo\<rparr>)
           | _ \<Rightarrow>
             (case js_in ''status'' data of
                Inl e \<Rightarrow> Inl e
              | Inr has_status \<Rightarrow>
                  (case (has_status \<and> js_get data ''status'' = Some (JStr ''success''),
                         as_number (js_get data ''lat''), as_number (js_get data ''lon'')) of
                     (True, Some la, Some lo) \<Rightarrow> Inr (Some \<lparr>lat = la, lon = lo\<rparr>)
                   | _ \<Rightarrow> Inr None))))"

fun geoByHost_loop :: "(url \<Rightarrow> http_outcome) \<Rightarrow> url list \<Rightarrow> js_error + LatLon option" where
  "geoByHost_loop net [] = Inr None"
| "geoByHost_loop net (u # us) =
     (case catch_undefined (fetchJson net u) of
        None \<Rightarrow> geoByHost_loop net us
      | Some data \<Rightarrow>
          if \<not> truthy data then geoByHost_loop net us
          else (case geoByHost_check data of
                  Inl e \<Rightarrow> Inl e
                | Inr (Some ll) \<Rightarrow> Inr (Some ll)
                | Inr None \<Rightarrow> geoByHost_loop net us))"

definition geoByHost :: "(url \<Rightarrow> http_outcome) \<Rightarrow> string \<Rightarrow> js_error + LatLon option" where
  "geoByHost net h = (let urls = [IpWho h, IpApi h] in geoByHost_loop net urls)"

section \<open>The plugin and the host's manager\<close>

text \<open>
  Function values of the manager: a method of the host, the result of \<open>f.bind(manager)\<close>,
  or one of the two closures installed by \<open>load\<close>.
\<close>

datatype fn = HostFn nat | Bound fn | PatchedCreate | PatchedUpdateVoiceState

text \<open>\<open>nodes\<close> lists \<open>manager.nodes.values()\<close> in insertion (registration) order.\<close>

record Manager =
  nodes :: "NodeOptions list"
  create :: fn
  updateVoiceState :: fn

record MagmaConnectOptions =
  nodeLocations :: "string \<rightharpoonup> loc_input"
  getGuildLocation :: "(string \<Rightarrow> js_error + loc_input option) option"
  refreshIntervalMs :: "real option"

text \<open>
  The fields of the class.  The manager object is shared with the host; the plugin owns the
  only reference that the model follows, so it is held by value.  The caches have their
  declared type.  The last two fields are not fields of the class: \<open>timers\<close> lists the
  handles of the interval timers that are active in the runtime, and \<open>next_handle\<close> is the
  handle that the next call of \<open>setInterval\<close> returns (a handle is never issued twice).
\<close>

record MagmaConnect =
  options :: MagmaConnectOptions
  manager :: "Manager option"
  interval :: "nat option"
  originalCreate :: "fn option"
  originalUpdateVoiceState :: "fn option"
  nodeGeo :: "string \<rightharpoonup> LatLon"
  guildGeo :: "string \<rightharpoonup> LatLon"
  selfGeo :: "LatLon option"
  timers :: "nat list"
  next_handle :: nat

text \<open>A handle above every handle of \<open>ts\<close>.\<close>

definition fresh_handle :: "nat list \<Rightarrow> nat" where
  "fresh_handle ts = Suc (fold max ts 0)"

text \<open>The constructor, in a runtime whose active timers are \<open>ts\<close>.\<close>

definition new_MagmaConnect :: "MagmaConnectOptions \<Rightarrow> nat list \<Rightarrow> MagmaConnect" where
  "new_MagmaConnect opts ts =
     \<lparr>options = opts, manager = None, interval = None, originalCreate = None,
      originalUpdateVoiceState = None, nodeGeo = Map.empty, guildGeo = Map.empty,
      selfGeo = None, timers = ts, next_handle = fresh_handle ts\<rparr>"

text \<open>The Node Key: \<open>n.options.identifier ?? n.options.host\<close>.\<close>

definition node_key :: "'a NodeOptions_scheme \<Rightarrow> string" where
  "node_key n = (case node_identifier n of Some i \<Rightarrow> i | None \<Rightarrow> host n)"

section \<open>Location resolver\<close>

text \<open>\<open>getSelfLocationCached\<close> returns the cached value; the fetch that it starts when the
  cache is empty writes \<open>selfGeo\<close> in a later turn.\<close>

definition getSelfLocationCached :: "MagmaConnect \<Rightarrow> LatLon option" where
  "getSelfLocationCached s = selfGeo s"

text \<open>
  The value that the promise of \<open>getTargetForGuild\<close> settles with, the caches read in the
  state \<open>s\<close>.
\<close>

definition getTargetForGuild_settled :: "MagmaConnect \<Rightarrow> string \<Rightarrow> js_error + loc_value" where
  "getTargetForGuild_settled s g =
     (case guildGeo s g of
        Some cached \<Rightarrow> Inr (Loc cached)
      | None \<Rightarrow>
          (case getGuildLocation (options s) of
             Some resolver \<Rightarrow>
               (case resolver g of
                  Inl e \<Rightarrow> Inl e
                | Inr (Some v) \<Rightarrow> Inr (normalizeLoc v)
                | Inr None \<Rightarrow> Inr (cached_value (getSelfLocationCached s)))
           | None \<Rightarrow> Inr (cached_value (getSelfLocationCached s))))"

text \<open>\<open>getTargetForGuild\<close> is declared \<open>async\<close>: every call returns a promise.\<close>

definition getTargetForGuild ::
  "MagmaConnect \<Rightarrow> string \<Rightarrow> (LatLon option, loc_value) sync_or_async" where
  "getTargetForGuild s g = Promise (getTargetForGuild_settled s g)"

text \<open>\<open>getSelfLocation\<close>: the same two providers without a host, the payload read by
  property access only.\<close>

definition getSelfLocation :: "(url \<Rightarrow> http_outcome) \<Rightarrow> LatLon option" where
  "getSelfLocation net =
     (let data = catch_undefined (fetchJson net (IpWho [])) in
      case (case data of None \<Rightarrow> False | Some d \<Rightarrow> truthy d \<and> truthy_opt (js_get d ''success''),
            as_number (Option.bind data (\<lambda>d. js_get d ''latitude'')),
            as_number (Option.bind data (\<lambda>d. js_get d ''longitude''))) of
        (True, Some la, Some lo) \<Rightarrow> Some \<lparr>lat = la, lon = lo\<rparr>
      | _ \<Rightarrow>
        (let data2 = catch_undefined (fetchJson net (IpApi [])) in
         case (case data2 of None \<Rightarrow> False
               | Some d \<Rightarrow> truthy d \<and> js_get d ''status'' = Some (JStr ''success''),
               as_number (Option.bind data2 (\<lambda>d. js_get d ''lat'')),
               as_number (Option.bind data2 (\<lambda>d. js_get d ''lon''))) of
           (True, Some la, Some lo) \<Rightarrow> Some \<lparr>lat = la, lon = lo\<rparr>
         | _ \<Rightarrow> None))"

section \<open>Nearest-node selector\<close>

text \<open>The \<open>for\<close> loop of \<open>pickBestNodeIdentifier\<close>, \<open>best\<close> being the loop variable.\<close>

fun pickBest_loop ::
  "(string \<rightharpoonup> LatLon) \<Rightarrow> LatLon \<Rightarrow> 'a NodeOptions_scheme list \<Rightarrow> (string \<times> real) option
     \<Rightarrow> (string \<times> real) option" where
  "pickBest_loop geo loc [] best = best"
| "pickBest_loop geo loc (n # ns) best =
     (let id = node_key n in
      case geo id of
        None \<Rightarrow> pickBest_loop geo loc ns best
      | Some ll \<Rightarrow>
          (let d = haversineKm loc ll in
           if (case best of None \<Rightarrow> True | Some b \<Rightarrow> d < snd b)
           then pickBest_loop geo loc ns (Some (id, d))
           else pickBest_loop geo loc ns best))"

text \<open>
  \<open>pickBestNodeIdentifier\<close>, given the value \<open>tv\<close> returned by the call \<open>getTarget()\<close>.  The
  resolutions it starts for nodes without a cache entry write \<open>nodeGeo\<close> in later turns and
  do not change the returned value.
\<close>

definition pickBestNodeIdentifier ::
  "MagmaConnect \<Rightarrow> (LatLon option, 'b) sync_or_async \<Rightarrow> string option" where
  "pickBestNodeIdentifier s tv =
     (case manager s of
        None \<Rightarrow> None
      | Some m \<Rightarrow>
          if nodes m = [] then None
          else
            (let ns = nodes m;
                 target = resolveSyncOrAsync tv;
                 loc = (case target of Some t \<Rightarrow> Some t | None \<Rightarrow> getSelfLocationCached s)
             in case loc of
                  None \<Rightarrow> Some (node_key (hd ns))
                | Some l \<Rightarrow>
                    (case pickBest_loop (nodeGeo s) l ns None of
                       Some best \<Rightarrow> Some (fst best)
                     | None \<Rightarrow> Some (node_key (hd ns)))))"

section \<open>Lifecycle and the intercepted create\<close>

text \<open>JavaScript truthiness of an optional string: absent and empty are falsy.\<close>

fun truthy_str :: "string option \<Rightarrow> bool" where
  "truthy_str None = False"
| "truthy_str (Some v) = (v \<noteq> [])"

text \<open>The closure installed as \<open>manager.create\<close>: the result is the options object handed to
  \<open>originalCreate\<close>.\<close>

definition patched_create :: "MagmaConnect \<Rightarrow> 'a PlayerOptions_scheme \<Rightarrow> 'a PlayerOptions_scheme" where
  "patched_create s opts =
     (let patched = opts in
      if \<not> truthy_str (nodeIdentifier patched) then
        (let target = getTargetForGuild s (guildId patched);
             id = pickBestNodeIdentifier s target
         in if truthy_str id then patched\<lparr>nodeIdentifier := id\<rparr> else patched)
      else patched)"

text \<open>
  \<open>load\<close>.  The refresh pass that it starts writes the caches in later turns only, after its
  first awaited value.
\<close>

definition load :: "Manager \<Rightarrow> MagmaConnect \<Rightarrow> MagmaConnect" where
  "load m s =
     (let s1 = (case refreshIntervalMs (options s) of
                  None \<Rightarrow> s
                | Some ms \<Rightarrow>
                    if ms \<noteq> 0 \<and> ms > 0
                    then s\<lparr>interval := Some (next_handle s),
                           timers := next_handle s # timers s,
                           next_handle := Suc (next_handle s)\<rparr>
                    else s);
          s2 = s1\<lparr>originalCreate := Some (Bound (create m))\<rparr>;
          m1 = m\<lparr>create := PatchedCreate\<rparr>;
          s3 = s2\<lparr>originalUpdateVoiceState := Some (Bound (updateVoiceState m1))\<rparr>;
          m2 = m1\<lparr>updateVoiceState := PatchedUpdateVoiceState\<rparr>
      in s3\<lparr>manager := Some m2\<rparr>)"

text \<open>\<open>unload\<close>: \<open>clearInterval\<close>, then the two assignments to the manager.\<close>

definition unload :: "MagmaConnect \<Rightarrow> MagmaConnect" where
  "unload s =
     (let s1 = (case interval s of
                  Some h \<Rightarrow> s\<lparr>timers := removeAll h (timers s)\<rparr>
                | None \<Rightarrow> s);
          s2 = (case (manager s1, originalCreate s1) of
                  (Some m, Some f) \<Rightarrow> s1\<lparr>manager := Some (m\<lparr>create := f\<rparr>)\<rparr>
                | _ \<Rightarrow> s1);
          s3 = (case (manager s2, originalUpdateVoiceState s2) of
                  (Some m, Some f) \<Rightarrow> s2\<lparr>manager := Some (m\<lparr>updateVoiceState := f\<rparr>)\<rparr>
                | _ \<Rightarrow> s2)
      in s3)"

text \<open>
  Whether the plugin is loaded, and with which manager (the manager as the host passed it
  to the latest \<open>load\<close>).
\<close>

datatype phase = Stopped | Running Manager

text \<open>
  The states of a plugin whose \<open>load\<close> is called only when it is not loaded: the new plugin,
  a \<open>load\<close> of a stopped plugin with any manager, an \<open>unload\<close> at any time, and in every phase
  the cache writes (a node resolution, a captured voice region, the self location).  The
  runtime's timers before the plugin was constructed are \<open>ts\<close>.
\<close>

inductive reachable :: "nat list \<Rightarrow> phase \<Rightarrow> MagmaConnect \<Rightarrow> bool" for ts where
  constructed: "reachable ts Stopped (new_MagmaConnect opts ts)"
| loaded: "reachable ts Stopped s \<Longrightarrow> reachable ts (Running m) (load m s)"
| unloaded: "reachable ts ph s \<Longrightarrow> reachable ts Stopped (unload s)"
| node_resolved: "reachable ts ph s \<Longrightarrow> reachable ts ph (s\<lparr>nodeGeo := (nodeGeo s)(k \<mapsto> ll)\<rparr>)"
| guild_captured: "reachable ts ph s \<Longrightarrow> reachable ts ph (s\<lparr>guildGeo := (guildGeo s)(g \<mapsto> ll)\<rparr>)"
| self_resolved: "reachable ts ph s \<Longrightarrow> reachable ts ph (s\<lparr>selfGeo := v\<rparr>)"

section \<open>Auxiliary definitions\<close>

text \<open>
  The quantity \<open>h\<close> of \<open>haversineKm\<close>, named so that lemmas can speak about it.
\<close>

definition hav_h :: "LatLon \<Rightarrow> LatLon \<Rightarrow> real" where
  "hav_h a b =
     sin (toRad (lat b - lat a) / 2) * sin (toRad (lat b - lat a) / 2)
     + cos (toRad (lat a)) * cos (toRad (lat b))
       * sin (toRad (lon b - lon a) / 2) * sin (toRad (lon b - lon a) / 2)"

text \<open>
  A parsed value on which the operator \<open>in\<close> does not throw.
\<close>

fun is_object :: "json \<Rightarrow> bool" where
  "is_object (JObj ms) = True"
| "is_object (JArr xs) = True"
| "is_object v = False"

text \<open>
  What holds in every state of such a plugin: the handles in use are below \<open>next_handle\<close>;
  the handle in \<open>interval\<close> is not one of \<open>ts\<close>, and the active timers are \<open>ts\<close>, with the
  handle in \<open>interval\<close> in front while the plugin runs with a refresh interval; a running
  plugin has patched the manager and holds the bound functions.
\<close>

definition timers_inv :: "nat list \<Rightarrow> phase \<Rightarrow> MagmaConnect \<Rightarrow> bool" where
  "timers_inv ts ph s =
     (list_all (\<lambda>t. t < next_handle s) ts
      \<and> (case interval s of
            None \<Rightarrow> timers s = ts
          | Some h \<Rightarrow> h < next_handle s \<and> h \<notin> set ts
                      \<and> (timers s = ts \<or> (timers s = h # ts \<and> ph \<noteq> Stopped))))"

definition patched_inv :: "phase \<Rightarrow> MagmaConnect \<Rightarrow> bool" where
  "patched_inv ph s =
     (case ph of
        Stopped \<Rightarrow> True
      | Running m \<Rightarrow>
          manager s = Some (m\<lparr>create := PatchedCreate, updateVoiceState := PatchedUpdateVoiceState\<rparr>)
          \<and> originalCreate s = Some (Bound (create m))
          \<and> originalUpdateVoiceState s = Some (Bound (updateVoiceState m)))"

section \<open>Example configurations\<close>

text \<open>
  A manager with two nodes, a plugin with a refresh interval, and the state after
  \<open>load\<close> in a runtime that already has the timers 3 and 7.
\<close>

definition demo_options :: MagmaConnectOptions where
  "demo_options = \<lparr>nodeLocations = Map.empty, getGuildLocation = None, refreshIntervalMs = Some 60000\<rparr>"

definition demo_manager :: Manager where
  "demo_manager =
     \<lparr>nodes = [\<lparr>host = ''lavalink-us.myhost.com'', node_identifier = Some ''us''\<rparr>,
               \<lparr>host = ''lavalink-eu.myhost.com'', node_identifier = None\<rparr>],
      create = HostFn 0, updateVoiceState = HostFn 1\<rparr>"

definition demo_loaded :: MagmaConnect where
  "demo_loaded = load demo_manager (new_MagmaConnect demo_options [3, 7])"



text \<open>
  Three nodes on the equator at longitudes 90, 10 and 0, registered in this order, all
  cached, and a guild cached at longitude 1.  The self location is not cached.
\<close>

definition three_nodes_manager :: Manager where
  "three_nodes_manager =
     \<lparr>nodes = [\<lparr>host = ''c.example.net'', node_identifier = Some ''C''\<rparr>,
               \<lparr>host = ''b.example.net'', node_identifier = None\<rparr>,
               \<lparr>host = ''a.example.net'', node_identifier = Some ''A''\<rparr>],
      create = HostFn 0, updateVoiceState = HostFn 1\<rparr>"

definition three_nodes_state :: MagmaConnect where
  "three_nodes_state =
     (load three_nodes_manager (new_MagmaConnect demo_options []))
       \<lparr>nodeGeo := [''A'' \<mapsto> \<lparr>lat = 0, lon = 0\<rparr>,
                    ''b.example.net'' \<mapsto> \<lparr>lat = 0, lon = 10\<rparr>,
                    ''C'' \<mapsto> \<lparr>lat = 0, lon = 90\<rparr>],
        guildGeo := [''123'' \<mapsto> \<lparr>lat = 0, lon = 1\<rparr>]\<rparr>"

text \<open>
  The plugin of the first example loaded a second time without an \<open>unload\<close>, the host passing
  the manager object as it is then; and the same plugin restarted properly, after a captured
  voice region and an \<open>unload\<close>.
\<close>

definition double_loaded :: MagmaConnect where
  "double_loaded =
     load (demo_manager\<lparr>create := PatchedCreate, updateVoiceState := PatchedUpdateVoiceState\<rparr>)
       demo_loaded"

definition restarted :: MagmaConnect where
  "restarted =
     load (demo_manager\<lparr>create := Bound (HostFn 0), updateVoiceState := Bound (HostFn 1)\<rparr>)
       (unload (demo_loaded\<lparr>guildGeo := [''123'' \<mapsto> \<lparr>lat = 50.11, lon = 8.68\<rparr>]\<rparr>))"

text \<open>
  A network in which the first provider answers with a JSON string and the second with a
  well-formed success payload.
\<close>

definition string_payload_net :: "url \<Rightarrow> http_outcome" where
  "string_payload_net u =
     (case u of
        IpWho h \<Rightarrow> Response 200 (JsonBody (JStr ''rate limited''))
      | IpApi h \<Rightarrow> Response 200 (JsonBody (JObj [(''status'', JStr ''success''),
                                                  (''lat'', JNum 50.11), (''lon'', JNum 8.68)])))"

section \<open>Properties of the parser\<close>

lemma split_on_nonempty: "split_on sep s \<noteq> []"
  by (induction s) auto

lemma hd_split_on: "hd (split_on sep s) = takeWhile (\<lambda>c. c \<noteq> sep) s"
  by (induction s) auto

lemma length_split_on: "length (split_on sep s) = Suc (count_list s sep)"
proof (induction s)
  case Nil
  show ?case by simp
next
  case (Cons c cs)
  have "split_on sep cs \<noteq> []" by (rule split_on_nonempty)
  then have "length (tl (split_on sep cs)) = length (split_on sep cs) - 1" by simp
  with Cons show ?case by simp
qed

lemma replace_trailing_digits_rev:
  "replace_trailing_digits s = rev (dropWhile is_digit (rev s))"
proof (induction s)
  case Nil
  show ?case by simp
next
  case (Cons c cs)
  show ?case
  proof (cases "list_all is_digit cs")
    case True
    then have "dropWhile is_digit (rev cs) = []"
      by (simp add: list_all_iff)
    moreover have "dropWhile is_digit (rev cs @ [c]) = dropWhile is_digit [c]"
      using True by (simp add: dropWhile_append list_all_iff)
    ultimately show ?thesis using True Cons by simp
  next
    case False
    then obtain x where "x \<in> set (rev cs)" "\<not> is_digit x"
      by (auto simp: list_all_iff)
    then have "dropWhile is_digit (rev cs @ [c]) = dropWhile is_digit (rev cs) @ [c]"
      by simp
    with False Cons show ?thesis by simp
  qed
qed


text \<open>
  Claim C5.  For every endpoint string the parser cuts the string at the first colon, counts
  the segments between dots, gives no region when there are fewer than three segments (fewer
  than two dots), and otherwise gives the first segment without its trailing run of digits,
  or no region when nothing is left.  The three examples of the specification evaluate as
  stated.
\<close>

theorem parseDiscordRegionFromEndpoint_spec:
  "parseDiscordRegionFromEndpoint e =
     (let hostname = takeWhile (\<lambda>c. c \<noteq> CHR '':'') e;
          stripped = rev (dropWhile is_digit (rev (takeWhile (\<lambda>c. c \<noteq> CHR ''.'') hostname)))
      in if count_list hostname (CHR ''.'') < 2 \<or> stripped = [] then None else Some stripped)
   \<and> parseDiscordRegionFromEndpoint ''us-east123.discord.media:443'' = Some ''us-east''
   \<and> parseDiscordRegionFromEndpoint ''localhost'' = None
   \<and> parseDiscordRegionFromEndpoint ''a.b'' = None"
proof -
  have gen: "\<And>e. parseDiscordRegionFromEndpoint e =
     (let hostname = takeWhile (\<lambda>c. c \<noteq> CHR '':'') e;
          stripped = rev (dropWhile is_digit (rev (takeWhile (\<lambda>c. c \<noteq> CHR ''.'') hostname)))
      in if count_list hostname (CHR ''.'') < 2 \<or> stripped = [] then None else Some stripped)"
    by (auto simp: parseDiscordRegionFromEndpoint_def Let_def hd_split_on length_split_on
        replace_trailing_digits_rev)
  have e1: "parseDiscordRegionFromEndpoint ''us-east123.discord.media:443'' = Some ''us-east''"
    by (simp add: gen is_digit_def)
  have e2: "parseDiscordRegionFromEndpoint ''localhost'' = None"
    by (simp add: gen)
  have e3: "parseDiscordRegionFromEndpoint ''a.b'' = None"
    by (simp add: gen)
  from gen e1 e2 e3 show ?thesis by blast
qed

section \<open>Properties of the example configurations\<close>

lemma demo_loaded_simps:
  "manager demo_loaded = Some (demo_manager\<lparr>create := PatchedCreate, updateVoiceState := PatchedUpdateVoiceState\<rparr>)"
  "selfGeo demo_loaded = None"
  "nodeGeo demo_loaded = Map.empty"
  "guildGeo demo_loaded = Map.empty"
  "options demo_loaded = demo_options"
  by (simp_all add: demo_loaded_def load_def new_MagmaConnect_def demo_options_def Let_def)

lemma three_nodes_state_simps:
  "manager three_nodes_state
     = Some (three_nodes_manager\<lparr>create := PatchedCreate, updateVoiceState := PatchedUpdateVoiceState\<rparr>)"
  "selfGeo three_nodes_state = None"
  "nodeGeo three_nodes_state = [''A'' \<mapsto> \<lparr>lat = 0, lon = 0\<rparr>,
                    ''b.example.net'' \<mapsto> \<lparr>lat = 0, lon = 10\<rparr>,
                    ''C'' \<mapsto> \<lparr>lat = 0, lon = 90\<rparr>]"
  "guildGeo three_nodes_state = [''123'' \<mapsto> \<lparr>lat = 0, lon = 1\<rparr>]"
  by (simp_all add: three_nodes_state_def load_def new_MagmaConnect_def demo_options_def Let_def)

section \<open>Properties of the distance\<close>

lemma toRad_mono: "x \<le> y \<Longrightarrow> toRad x \<le> toRad y"
  by (simp add: toRad_def divide_right_mono mult_right_mono)

lemma toRad_strict_mono: "x < y \<Longrightarrow> toRad x < toRad y"
  by (simp add: toRad_def divide_strict_right_mono mult_strict_right_mono)

lemma toRad_values:
  "toRad 0 = 0" "toRad 90 = pi / 2" "toRad (- 90) = - (pi / 2)"
  "toRad 180 = pi" "toRad (- 180) = - pi" "toRad 360 = 2 * pi" "toRad (- 360) = - (2 * pi)"
  by (simp_all add: toRad_def)

lemma toRad_zero_iff: "toRad x = 0 \<longleftrightarrow> x = 0"
  by (simp add: toRad_def)

lemma cos_toRad_nonneg:
  assumes "- 90 \<le> x" "x \<le> 90"
  shows "0 \<le> cos (toRad x)"
proof -
  from toRad_mono[OF assms(1)] toRad_mono[OF assms(2)]
  have "- (pi / 2) \<le> toRad x" "toRad x \<le> pi / 2" by (simp_all add: toRad_values)
  then show ?thesis by (rule cos_ge_zero)
qed

lemma cos_toRad_zero_iff:
  assumes "- 90 \<le> x" "x \<le> 90"
  shows "cos (toRad x) = 0 \<longleftrightarrow> \<bar>x\<bar> = 90"
proof
  assume z: "cos (toRad x) = 0"
  show "\<bar>x\<bar> = 90"
  proof (rule ccontr)
    assume "\<bar>x\<bar> \<noteq> 90"
    with assms have s: "- 90 < x" "x < 90" by auto
    from toRad_strict_mono[OF s(1)] toRad_strict_mono[OF s(2)]
    have "- (pi / 2) < toRad x" "toRad x < pi / 2" by (simp_all add: toRad_values)
    then have "0 < cos (toRad x)" by (rule cos_gt_zero_pi)
    with z show False by simp
  qed
next
  assume "\<bar>x\<bar> = 90"
  then have "x = 90 \<or> x = - 90" by auto
  then show "cos (toRad x) = 0"
    by (auto simp: toRad_values)
qed

lemma sin_half_zero_wide:
  assumes "- 360 \<le> d" "d \<le> 360"
  shows "sin (toRad d / 2) = 0 \<longleftrightarrow> d = 0 \<or> \<bar>d\<bar> = 360"
proof
  assume z: "sin (toRad d / 2) = 0"
  show "d = 0 \<or> \<bar>d\<bar> = 360"
  proof (rule ccontr)
    assume n: "\<not> (d = 0 \<or> \<bar>d\<bar> = 360)"
    with assms have s: "- 360 < d" "d < 360" by auto
    from toRad_strict_mono[OF s(1)] toRad_strict_mono[OF s(2)]
    have "- pi < toRad d / 2" "toRad d / 2 < pi" by (simp_all add: toRad_values)
    from sin_eq_0_pi[OF this z] have "d = 0" by (simp add: toRad_zero_iff)
    with n show False by simp
  qed
next
  assume "d = 0 \<or> \<bar>d\<bar> = 360"
  then have "d = 0 \<or> d = 360 \<or> d = - 360" by auto
  then show "sin (toRad d / 2) = 0" by (auto simp: toRad_values)
qed

lemma sin_half_zero_small:
  assumes "- 180 \<le> d" "d \<le> 180"
  shows "sin (toRad d / 2) = 0 \<longleftrightarrow> d = 0"
  using sin_half_zero_wide[of d] assms by auto

lemma haversineKm_hav_h: "haversineKm a b = 2 * 6371 * arcsin (min 1 (sqrt (hav_h a b)))"
  by (simp add: haversineKm_def hav_h_def Let_def)

lemma hav_h_nonneg:
  assumes "valid_coord a" "valid_coord b"
  shows "0 \<le> hav_h a b"
proof -
  have c: "0 \<le> cos (toRad (lat a)) * cos (toRad (lat b))"
    using assms by (intro mult_nonneg_nonneg cos_toRad_nonneg) (simp_all add: valid_coord_def)
  have "0 \<le> (cos (toRad (lat a)) * cos (toRad (lat b)))
            * (sin (toRad (lon b - lon a) / 2) * sin (toRad (lon b - lon a) / 2))"
    by (rule mult_nonneg_nonneg[OF c zero_le_square])
  moreover have "0 \<le> sin (toRad (lat b - lat a) / 2) * sin (toRad (lat b - lat a) / 2)"
    by simp
  ultimately show ?thesis by (simp add: hav_h_def mult.assoc)
qed

lemma haversineKm_zero_iff_h:
  assumes "0 \<le> hav_h a b"
  shows "haversineKm a b = 0 \<longleftrightarrow> hav_h a b = 0"
proof -
  let ?y = "min 1 (sqrt (hav_h a b))"
  have y: "0 \<le> ?y" "?y \<le> 1" using assms by simp_all
  then have "arcsin ?y = arcsin 0 \<longleftrightarrow> ?y = 0"
    by (intro arcsin_eq_iff) simp_all
  moreover have "?y = 0 \<longleftrightarrow> hav_h a b = 0"
    using assms by (auto simp: min_def)
  ultimately show ?thesis by (simp add: haversineKm_hav_h)
qed

lemma hav_h_zero_iff:
  assumes "valid_coord a" "valid_coord b"
  shows "hav_h a b = 0 \<longleftrightarrow>
           lat a = lat b \<and> (lon a = lon b \<or> \<bar>lat a\<bar> = 90 \<or> \<bar>lon a - lon b\<bar> = 360)"
proof -
  let ?p = "sin (toRad (lat b - lat a) / 2)"
  let ?q = "sin (toRad (lon b - lon a) / 2)"
  let ?c = "cos (toRad (lat a)) * cos (toRad (lat b))"
  have va: "- 90 \<le> lat a" "lat a \<le> 90" "- 180 \<le> lon a" "lon a \<le> 180"
    and vb: "- 90 \<le> lat b" "lat b \<le> 90" "- 180 \<le> lon b" "lon b \<le> 180"
    using assms by (simp_all add: valid_coord_def)
  have c: "0 \<le> ?c"
    using va vb by (intro mult_nonneg_nonneg cos_toRad_nonneg)
  have h: "hav_h a b = ?p * ?p + ?c * (?q * ?q)"
    by (simp add: hav_h_def mult.assoc)
  have t2: "0 \<le> ?c * (?q * ?q)" by (rule mult_nonneg_nonneg[OF c zero_le_square])
  have "hav_h a b = 0 \<longleftrightarrow> ?p * ?p = 0 \<and> ?c * (?q * ?q) = 0"
    unfolding h using t2 by (smt (verit) zero_le_square)
  also have "\<dots> \<longleftrightarrow> ?p = 0 \<and> (?c = 0 \<or> ?q = 0)" by simp
  also have "?p = 0 \<longleftrightarrow> lat b - lat a = 0"
    using va vb by (intro sin_half_zero_small) simp_all
  also have "?q = 0 \<longleftrightarrow> lon b - lon a = 0 \<or> \<bar>lon b - lon a\<bar> = 360"
    using va vb by (intro sin_half_zero_wide) simp_all
  also have "?c = 0 \<longleftrightarrow> \<bar>lat a\<bar> = 90 \<or> \<bar>lat b\<bar> = 90"
    using cos_toRad_zero_iff[OF va(1,2)] cos_toRad_zero_iff[OF vb(1,2)] by simp
  finally show ?thesis by auto
qed

text \<open>
  Claim C4, as the code has it.  For coordinates within the declared ranges the distance is
  zero exactly when the two coordinates name the same point of the sphere: equal latitudes,
  and equal longitudes or a pole (latitude 90 or -90) or longitudes 360 degrees apart (-180
  and 180).
\<close>

theorem haversineKm_zero_iff:
  "valid_coord a \<Longrightarrow> valid_coord b \<Longrightarrow>
     haversineKm a b = 0 \<longleftrightarrow>
       lat a = lat b \<and> (lon a = lon b \<or> \<bar>lat a\<bar> = 90 \<or> \<bar>lon a - lon b\<bar> = 360)"
  using haversineKm_zero_iff_h[OF hav_h_nonneg] hav_h_zero_iff by simp

theorem haversineKm_zero_iff_witness:
  "valid_coord \<lparr>lat = 0, lon = - 180\<rparr> \<and> valid_coord \<lparr>lat = 0, lon = 180\<rparr>
   \<and> haversineKm \<lparr>lat = 0, lon = - 180\<rparr> \<lparr>lat = 0, lon = 180\<rparr> = 0
   \<and> valid_coord \<lparr>lat = 50.11, lon = 8.68\<rparr>
   \<and> haversineKm \<lparr>lat = 50.11, lon = 8.68\<rparr> \<lparr>lat = 50.11, lon = 8.68\<rparr> = 0
   \<and> haversineKm \<lparr>lat = 50.11, lon = 8.68\<rparr> \<lparr>lat = 0, lon = 180\<rparr> \<noteq> 0"
proof -
  have v: "valid_coord \<lparr>lat = 0, lon = - 180\<rparr>" "valid_coord \<lparr>lat = 0, lon = 180\<rparr>"
    "valid_coord \<lparr>lat = 50.11, lon = 8.68\<rparr>"
    by (simp_all add: valid_coord_def)
  from haversineKm_zero_iff[OF v(1) v(2)] haversineKm_zero_iff[OF v(3) v(3)]
    haversineKm_zero_iff[OF v(3) v(2)] v
  show ?thesis by simp
qed

text \<open>
  The claim as stated, zero only for equal latitude and longitude, fails at the pole: two
  valid coordinates with different longitudes at latitude 90 are at distance zero.
\<close>

theorem haversineKm_counterexample:
  "valid_coord \<lparr>lat = 90, lon = 0\<rparr> \<and> valid_coord \<lparr>lat = 90, lon = 10\<rparr>
   \<and> haversineKm \<lparr>lat = 90, lon = 0\<rparr> \<lparr>lat = 90, lon = 10\<rparr> = 0
   \<and> \<lparr>lat = 90, lon = 0\<rparr> \<noteq> \<lparr>lat = 90, lon = (10::real)\<rparr>"
  by (simp add: valid_coord_def haversineKm_def toRad_def)

text \<open>
  On the equator the distance is the radius times the difference of the longitudes in radians.
\<close>

lemma haversineKm_equator:
  assumes "lat a = 0" "lat b = 0" "\<bar>lon b - lon a\<bar> \<le> 180"
  shows "haversineKm a b = 6371 * toRad \<bar>lon b - lon a\<bar>"
proof -
  let ?d = "lon b - lon a"
  let ?x = "toRad \<bar>?d\<bar> / 2"
  have d: "0 \<le> \<bar>?d\<bar>" "\<bar>?d\<bar> \<le> 180" using assms by simp_all
  from toRad_mono[OF d(1)] toRad_mono[OF d(2)]
  have x: "0 \<le> ?x" "?x \<le> pi / 2" by (simp_all add: toRad_values)
  have sx: "0 \<le> sin ?x" using x pi_ge_zero by (intro sin_ge_zero) linarith+
  have neg: "toRad (- \<bar>?d\<bar>) = - toRad \<bar>?d\<bar>" by (simp add: toRad_def)
  have "?d = \<bar>?d\<bar> \<or> ?d = - \<bar>?d\<bar>" by linarith
  then have "toRad ?d = toRad \<bar>?d\<bar> \<or> toRad ?d = - toRad \<bar>?d\<bar>"
    using neg by metis
  then have "toRad ?d / 2 = ?x \<or> toRad ?d / 2 = - ?x"
    by auto
  then have sq: "sin (toRad ?d / 2) * sin (toRad ?d / 2) = sin ?x * sin ?x"
    by auto
  have "hav_h a b = sin ?x * sin ?x"
    using assms(1,2) sq by (simp add: hav_h_def toRad_values)
  then have "sqrt (hav_h a b) = sin ?x"
    using sx by simp
  moreover have "sin ?x \<le> 1" by simp
  ultimately have "min 1 (sqrt (hav_h a b)) = sin ?x" by simp
  moreover have "arcsin (sin ?x) = ?x"
    using x by (intro arcsin_sin) linarith+
  ultimately show ?thesis by (simp add: haversineKm_hav_h)
qed

section \<open>Properties of the selector\<close>

lemma pickBest_loop_key:
  "pickBest_loop geo loc ns best = Some b \<Longrightarrow> best = Some b \<or> fst b \<in> node_key ` set ns"
proof (induction ns arbitrary: best)
  case Nil
  then show ?case by simp
next
  case (Cons n ns)
  show ?case
  proof (cases "geo (node_key n)")
    case None
    with Cons.prems have "pickBest_loop geo loc ns best = Some b" by simp
    from Cons.IH[OF this] show ?thesis by auto
  next
    case (Some ll)
    show ?thesis
    proof (cases "case best of None \<Rightarrow> True | Some b' \<Rightarrow> haversineKm loc ll < snd b'")
      case True
      with Some Cons.prems
      have "pickBest_loop geo loc ns (Some (node_key n, haversineKm loc ll)) = Some b"
        by (simp add: Let_def)
      from Cons.IH[OF this] show ?thesis by auto
    next
      case False
      with Some Cons.prems have "pickBest_loop geo loc ns best = Some b"
        by (simp add: Let_def)
      from Cons.IH[OF this] show ?thesis by auto
    qed
  qed
qed

lemma pickBest_loop_uncached:
  "\<forall>n \<in> set ns. geo (node_key n) = None \<Longrightarrow> pickBest_loop geo loc ns best = best"
  by (induction ns arbitrary: best) auto

text \<open>
  Claim C10.  A defined result of the selection is the Node Key of a node of the pool,
  whatever the cache \<open>nodeGeo\<close> holds; with no manager or an empty pool the result is
  undefined.
\<close>

theorem pickBestNodeIdentifier_in_pool:
  "(pickBestNodeIdentifier s tv = Some k \<longrightarrow>
      (\<exists>m n. manager s = Some m \<and> n \<in> set (nodes m) \<and> node_key n = k))
   \<and> (manager s = None \<longrightarrow> pickBestNodeIdentifier s tv = None)
   \<and> (\<forall>m. manager s = Some m \<and> nodes m = [] \<longrightarrow> pickBestNodeIdentifier s tv = None)"
proof (intro conjI impI allI)
  assume r: "pickBestNodeIdentifier s tv = Some k"
  then obtain m where m: "manager s = Some m" and ne: "nodes m \<noteq> []"
    by (auto simp: pickBestNodeIdentifier_def split: option.splits if_splits)
  from ne have first: "hd (nodes m) \<in> set (nodes m)" by simp
  have "k \<in> node_key ` set (nodes m)"
  proof (cases "case resolveSyncOrAsync tv of Some t \<Rightarrow> Some t | None \<Rightarrow> getSelfLocationCached s")
    case None
    with r m ne first show ?thesis
      by (auto simp: pickBestNodeIdentifier_def Let_def)
  next
    case (Some l)
    show ?thesis
    proof (cases "pickBest_loop (nodeGeo s) l (nodes m) None")
      case None
      with r m ne first Some show ?thesis
        by (auto simp: pickBestNodeIdentifier_def Let_def)
    next
      case (Some b)
      from pickBest_loop_key[OF this] have "fst b \<in> node_key ` set (nodes m)" by simp
      with r m ne Some \<open>_ = Some l\<close> show ?thesis
        by (auto simp: pickBestNodeIdentifier_def Let_def)
    qed
  qed
  with m show "\<exists>m n. manager s = Some m \<and> n \<in> set (nodes m) \<and> node_key n = k" by auto
next
  assume "manager s = None"
  then show "pickBestNodeIdentifier s tv = None" by (simp add: pickBestNodeIdentifier_def)
next
  fix m assume "manager s = Some m \<and> nodes m = []"
  then show "pickBestNodeIdentifier s tv = None" by (simp add: pickBestNodeIdentifier_def)
qed

theorem pickBestNodeIdentifier_in_pool_witness:
  "pickBestNodeIdentifier demo_loaded (Plain None) = Some ''us''
   \<and> (\<exists>m n. manager demo_loaded = Some m \<and> n \<in> set (nodes m) \<and> node_key n = ''us'')
   \<and> manager (new_MagmaConnect demo_options []) = None
   \<and> pickBestNodeIdentifier (new_MagmaConnect demo_options []) (Plain None) = None"
proof -
  have a: "pickBestNodeIdentifier demo_loaded (Plain None) = Some ''us''"
    by (simp add: pickBestNodeIdentifier_def demo_loaded_simps demo_manager_def Let_def
        getSelfLocationCached_def node_key_def)
  have b: "manager (new_MagmaConnect demo_options []) = None"
    by (simp add: new_MagmaConnect_def)
  from pickBestNodeIdentifier_in_pool[of demo_loaded "Plain None" "''us''"] a
  have c: "\<exists>m n. manager demo_loaded = Some m \<and> n \<in> set (nodes m) \<and> node_key n = ''us''"
    by blast
  from pickBestNodeIdentifier_in_pool[of "new_MagmaConnect demo_options []" "Plain None"] b
  have d: "pickBestNodeIdentifier (new_MagmaConnect demo_options []) (Plain None) = None"
    by blast
  from a b c d show ?thesis by blast
qed

text \<open>
  Claim C6.  For a non-empty pool, the selection returns the key of the first node (its
  identifier if present, else its host) when no node of the pool has a cached coordinate,
  and also when neither the target nor the self location gives a coordinate.
\<close>

theorem pickBestNodeIdentifier_fallback:
  "(manager s = Some m \<and> nodes m \<noteq> [] \<and> (\<forall>n \<in> set (nodes m). nodeGeo s (node_key n) = None)
      \<longrightarrow> pickBestNodeIdentifier s tv =
            Some (case node_identifier (hd (nodes m)) of Some i \<Rightarrow> i | None \<Rightarrow> host (hd (nodes m))))
   \<and> (manager s = Some m \<and> nodes m \<noteq> [] \<and> resolveSyncOrAsync tv = None \<and> selfGeo s = None
      \<longrightarrow> pickBestNodeIdentifier s tv =
            Some (case node_identifier (hd (nodes m)) of Some i \<Rightarrow> i | None \<Rightarrow> host (hd (nodes m))))"
  by (auto simp: pickBestNodeIdentifier_def Let_def pickBest_loop_uncached node_key_def
      getSelfLocationCached_def split: option.splits)

theorem pickBestNodeIdentifier_fallback_witness:
  "nodeGeo demo_loaded ''us'' = None
   \<and> nodeGeo demo_loaded ''lavalink-eu.myhost.com'' = None
   \<and> pickBestNodeIdentifier demo_loaded (Plain (Some \<lparr>lat = 0, lon = 1\<rparr>)) = Some ''us''
   \<and> resolveSyncOrAsync (Promise (Inr (Some \<lparr>lat = 0, lon = 1\<rparr>))) = None
   \<and> pickBestNodeIdentifier (demo_loaded\<lparr>nodeGeo := [''us'' \<mapsto> \<lparr>lat = 0, lon = 1\<rparr>]\<rparr>)
        (Promise (Inr (Some \<lparr>lat = 0, lon = 1\<rparr>))) = Some ''us''"
proof -
  let ?m = "demo_manager\<lparr>create := PatchedCreate, updateVoiceState := PatchedUpdateVoiceState\<rparr>"
  let ?s2 = "demo_loaded\<lparr>nodeGeo := [''us'' \<mapsto> \<lparr>lat = 0, lon = 1\<rparr>]\<rparr>"
  have m: "manager demo_loaded = Some ?m" "manager ?s2 = Some ?m"
    by (simp_all add: demo_loaded_simps)
  have ne: "nodes ?m \<noteq> []" by (simp add: demo_manager_def)
  have un: "\<forall>n \<in> set (nodes ?m). nodeGeo demo_loaded (node_key n) = None"
    by (simp add: demo_loaded_simps)
  have hd: "(case node_identifier (hd (nodes ?m)) of Some i \<Rightarrow> i | None \<Rightarrow> host (hd (nodes ?m))) = ''us''"
    by (simp add: demo_manager_def)
  have p: "resolveSyncOrAsync (Promise (Inr (Some \<lparr>lat = 0, lon = 1::real\<rparr>))) = None" by simp
  have sg: "selfGeo ?s2 = None" by (simp add: demo_loaded_simps)
  from pickBestNodeIdentifier_fallback[of demo_loaded ?m "Plain (Some \<lparr>lat = 0, lon = 1\<rparr>)"] m ne un hd
  have a: "pickBestNodeIdentifier demo_loaded (Plain (Some \<lparr>lat = 0, lon = 1\<rparr>)) = Some ''us''"
    by simp
  from pickBestNodeIdentifier_fallback[of ?s2 ?m "Promise (Inr (Some \<lparr>lat = 0, lon = 1\<rparr>))"] m ne p sg hd
  have b: "pickBestNodeIdentifier ?s2 (Promise (Inr (Some \<lparr>lat = 0, lon = 1\<rparr>))) = Some ''us''"
    by simp
  have un': "nodeGeo demo_loaded ''us'' = None" "nodeGeo demo_loaded ''lavalink-eu.myhost.com'' = None"
    by (simp_all add: demo_loaded_simps)
  from un' a p b show ?thesis by blast
qed

lemma pickBest_loop_strict_min:
  assumes cached: "geo ka = Some la"
    and others: "\<And>n ll. n \<in> set ns \<Longrightarrow> node_key n \<noteq> ka \<Longrightarrow> geo (node_key n) = Some ll
                    \<Longrightarrow> haversineKm loc la < haversineKm loc ll"
    and start: "(ka \<in> node_key ` set ns \<and> (case best of None \<Rightarrow> True
                   | Some b \<Rightarrow> haversineKm loc la < snd b))
                \<or> best = Some (ka, haversineKm loc la)"
  shows "pickBest_loop geo loc ns best = Some (ka, haversineKm loc la)"
  using others start
proof (induction ns arbitrary: best)
  case Nil
  then show ?case by simp
next
  case (Cons n ns)
  let ?da = "haversineKm loc la"
  have oth: "?da < haversineKm loc ll"
    if "n' \<in> set ns" "node_key n' \<noteq> ka" "geo (node_key n') = Some ll" for n' ll
    using that Cons.prems(1)[of n' ll] by simp
  show ?case
  proof (cases "node_key n = ka")
    case True
    have "pickBest_loop geo loc (n # ns) best = pickBest_loop geo loc ns (Some (ka, ?da))"
      using True cached Cons.prems(2) by (auto simp: Let_def split: option.splits)
    also have "\<dots> = Some (ka, ?da)"
      by (rule Cons.IH[OF oth]) simp_all
    finally show ?thesis .
  next
    case False
    show ?thesis
    proof (cases "geo (node_key n)")
      case None
      have st: "(ka \<in> node_key ` set ns \<and> (case best of None \<Rightarrow> True | Some b \<Rightarrow> ?da < snd b))
                \<or> best = Some (ka, ?da)"
        using Cons.prems(2) False by auto
      have "pickBest_loop geo loc (n # ns) best = pickBest_loop geo loc ns best"
        using None by simp
      also have "\<dots> = Some (ka, ?da)" by (rule Cons.IH[OF oth st])
      finally show ?thesis .
    next
      case (Some ll)
      have lt: "?da < haversineKm loc ll"
        using Cons.prems(1)[of n ll] False Some by simp
      show ?thesis
      proof (cases "case best of None \<Rightarrow> True | Some b \<Rightarrow> haversineKm loc ll < snd b")
        case True
        have nb: "best \<noteq> Some (ka, ?da)" using True lt by auto
        have st: "(ka \<in> node_key ` set ns \<and>
                    (case Some (node_key n, haversineKm loc ll) of None \<Rightarrow> True
                     | Some b \<Rightarrow> ?da < snd b))
                  \<or> Some (node_key n, haversineKm loc ll) = Some (ka, ?da)"
          using Cons.prems(2) False nb lt by auto
        have "pickBest_loop geo loc (n # ns) best
                = pickBest_loop geo loc ns (Some (node_key n, haversineKm loc ll))"
          using Some True by (simp add: Let_def)
        also have "\<dots> = Some (ka, ?da)" by (rule Cons.IH[OF oth st])
        finally show ?thesis .
      next
        case F2: False
        have st: "(ka \<in> node_key ` set ns \<and> (case best of None \<Rightarrow> True | Some b \<Rightarrow> ?da < snd b))
                \<or> best = Some (ka, ?da)"
          using Cons.prems(2) False by auto
        have "pickBest_loop geo loc (n # ns) best = pickBest_loop geo loc ns best"
          using Some F2 by (simp add: Let_def)
        also have "\<dots> = Some (ka, ?da)" by (rule Cons.IH[OF oth st])
        finally show ?thesis .
      qed
    qed
  qed
qed

text \<open>
  A cached node that is strictly nearer to the location than every cached node with
  another key is the one selected, wherever it stands in the pool.
\<close>

lemma pickBestNodeIdentifier_strict_min:
  assumes "manager s = Some m" "n \<in> set (nodes m)" "nodeGeo s (node_key n) = Some la"
    and "(case resolveSyncOrAsync tv of Some t \<Rightarrow> Some t | None \<Rightarrow> selfGeo s) = Some loc"
    and "\<And>n' ll. n' \<in> set (nodes m) \<Longrightarrow> node_key n' \<noteq> node_key n
            \<Longrightarrow> nodeGeo s (node_key n') = Some ll
            \<Longrightarrow> haversineKm loc la < haversineKm loc ll"
  shows "pickBestNodeIdentifier s tv = Some (node_key n)"
proof -
  have "pickBest_loop (nodeGeo s) loc (nodes m) None = Some (node_key n, haversineKm loc la)"
    using assms(2) by (intro pickBest_loop_strict_min assms(3) assms(5)) auto
  moreover have "nodes m \<noteq> []" using assms(2) by auto
  ultimately show ?thesis
    using assms(1,4) unfolding pickBestNodeIdentifier_def getSelfLocationCached_def Let_def
    by (simp split: option.splits)
qed

text \<open>
  Three nodes on the equator at longitudes 0, 10 and 90 and the location at longitude 1:
  the node at longitude 0 is selected from every pool made of these nodes.
\<close>

lemma nearest_of_three:
  assumes "manager s = Some m"
    and "set (nodes m) = {nA, nB, nC}"
    and "nodeGeo s (node_key nA) = Some \<lparr>lat = 0, lon = 0\<rparr>"
    and "nodeGeo s (node_key nB) = Some \<lparr>lat = 0, lon = 10\<rparr>"
    and "nodeGeo s (node_key nC) = Some \<lparr>lat = 0, lon = 90\<rparr>"
    and "(case resolveSyncOrAsync tv of Some t \<Rightarrow> Some t | None \<Rightarrow> selfGeo s)
           = Some \<lparr>lat = 0, lon = 1\<rparr>"
  shows "pickBestNodeIdentifier s tv = Some (node_key nA)"
proof -
  let ?T = "\<lparr>lat = 0, lon = 1::real\<rparr>"
  note mem = assms(2)
  have dA: "haversineKm ?T \<lparr>lat = 0, lon = 0\<rparr> = 6371 * toRad 1"
    using haversineKm_equator[of ?T "\<lparr>lat = 0, lon = 0\<rparr>"] by simp
  have dB: "haversineKm ?T \<lparr>lat = 0, lon = 10\<rparr> = 6371 * toRad 9"
    using haversineKm_equator[of ?T "\<lparr>lat = 0, lon = 10\<rparr>"] by simp
  have dC: "haversineKm ?T \<lparr>lat = 0, lon = 90\<rparr> = 6371 * toRad 89"
    using haversineKm_equator[of ?T "\<lparr>lat = 0, lon = 90\<rparr>"] by simp
  have lt: "toRad 1 < toRad 9" "toRad 1 < toRad 89"
    by (simp_all add: toRad_strict_mono)
  show ?thesis
  proof (rule pickBestNodeIdentifier_strict_min[OF assms(1) _ assms(3) assms(6)])
    show "nA \<in> set (nodes m)" using mem by simp
  next
    fix n' ll
    assume n': "n' \<in> set (nodes m)" "node_key n' \<noteq> node_key nA"
      and g: "nodeGeo s (node_key n') = Some ll"
    from n' mem have "n' = nB \<or> n' = nC" by auto
    with g assms(4,5) have "ll = \<lparr>lat = 0, lon = 10\<rparr> \<or> ll = \<lparr>lat = 0, lon = 90\<rparr>" by auto
    then show "haversineKm ?T \<lparr>lat = 0, lon = 0\<rparr> < haversineKm ?T ll"
      using dA dB dC lt by auto
  qed
qed

text \<open>
  Claim C3.  In a pool that consists of three nodes, in any order, whose cached coordinates
  are (0,0), (0,10) and (0,90), with the location (0,1) obtained from the target or from the
  self location, the selection returns the key of the node at (0,0).
\<close>

theorem select_nearest_of_three:
  assumes "manager s = Some m"
    and "mset (nodes m) = {#nA, nB, nC#}"
    and "nodeGeo s (node_key nA) = Some \<lparr>lat = 0, lon = 0\<rparr>"
    and "nodeGeo s (node_key nB) = Some \<lparr>lat = 0, lon = 10\<rparr>"
    and "nodeGeo s (node_key nC) = Some \<lparr>lat = 0, lon = 90\<rparr>"
    and "(case resolveSyncOrAsync tv of Some t \<Rightarrow> Some t | None \<Rightarrow> selfGeo s)
           = Some \<lparr>lat = 0, lon = 1\<rparr>"
  shows "pickBestNodeIdentifier s tv = Some (node_key nA)"
proof -
  have "set (nodes m) = set_mset (mset (nodes m))" by simp
  also have "\<dots> = {nA, nB, nC}" unfolding assms(2) by auto
  finally have "set (nodes m) = {nA, nB, nC}" .
  from nearest_of_three[OF assms(1) this assms(3-6)] show ?thesis .
qed

theorem select_nearest_of_three_witness:
  "pickBestNodeIdentifier three_nodes_state (Plain (Some \<lparr>lat = 0, lon = 1\<rparr>))
     = Some (node_key \<lparr>host = ''a.example.net'', node_identifier = Some ''A''\<rparr>)"
  by (rule select_nearest_of_three[where
        m = "three_nodes_manager\<lparr>create := PatchedCreate, updateVoiceState := PatchedUpdateVoiceState\<rparr>"
        and nB = "\<lparr>host = ''b.example.net'', node_identifier = None\<rparr>"
        and nC = "\<lparr>host = ''c.example.net'', node_identifier = Some ''C''\<rparr>"])
     (simp_all add: three_nodes_state_simps three_nodes_manager_def node_key_def)

lemma three_nodes_nearest:
  "pickBestNodeIdentifier three_nodes_state (Plain (Some \<lparr>lat = 0, lon = 1\<rparr>)) = Some ''A''"
proof -
  let ?m = "three_nodes_manager\<lparr>create := PatchedCreate, updateVoiceState := PatchedUpdateVoiceState\<rparr>"
  let ?nA = "\<lparr>host = ''a.example.net'', node_identifier = Some ''A''\<rparr>"
  have "pickBestNodeIdentifier three_nodes_state (Plain (Some \<lparr>lat = 0, lon = 1\<rparr>))
          = Some (node_key ?nA)"
  proof (rule nearest_of_three[where m = ?m
        and nB = "\<lparr>host = ''b.example.net'', node_identifier = None\<rparr>"
        and nC = "\<lparr>host = ''c.example.net'', node_identifier = Some ''C''\<rparr>"])
  qed (auto simp: three_nodes_state_simps three_nodes_manager_def node_key_def)
  then show ?thesis by (simp add: node_key_def)
qed

section \<open>Properties of the target resolution\<close>

lemma regionToLatLon_cases:
  "(regionToLatLon r = Undefined \<longleftrightarrow>
      toLowerCase r \<notin> fst ` set region_map \<and> toLowerCase r \<notin> set inherited_keys)
   \<and> (regionToLatLon r = Loc ll \<longleftrightarrow> map_of region_map (toLowerCase r) = Some ll)
   \<and> (regionToLatLon r = ProtoMember k \<longleftrightarrow>
        toLowerCase r \<notin> fst ` set region_map \<and> toLowerCase r \<in> set inherited_keys
        \<and> k = toLowerCase r)"
proof (cases "map_of region_map (toLowerCase r)")
  case None
  then have "toLowerCase r \<notin> fst ` set region_map" by (simp add: map_of_eq_None_iff)
  with None show ?thesis by (auto simp: regionToLatLon_def Let_def)
next
  case (Some c)
  then have "toLowerCase r \<in> fst ` set region_map"
    by (metis map_of_eq_None_iff option.distinct(1))
  with Some show ?thesis by (auto simp: regionToLatLon_def Let_def)
qed

lemma regionToLatLon_inherited:
  "regionToLatLon ''constructor'' = ProtoMember ''constructor''"
  "regionToLatLon ''__proto__'' = ProtoMember ''__proto__''"
  "regionToLatLon ''Frankfurt'' = Loc \<lparr>lat = 50.11, lon = 8.68\<rparr>"
  "regionToLatLon ''atlantis'' = Undefined"
  by (simp_all add: regionToLatLon_def region_map_def toLowerCase_def to_lower_char_def
      inherited_keys_def)




section \<open>Properties of the intercepted create\<close>

text \<open>
  The promise returned by \<open>getTargetForGuild\<close> is dropped by the selection: the intercepted
  create selects as if there were no target.
\<close>

lemma create_target_is_dropped:
  "pickBestNodeIdentifier s (getTargetForGuild s g) = pickBestNodeIdentifier s (Plain None)"
  by (simp add: pickBestNodeIdentifier_def getTargetForGuild_def Let_def split: option.splits)

text \<open>
  Claim C2, evaluated on the code.  The guild has the cached coordinate (0,1); a selection
  that is given this coordinate returns the node at (0,0), the nearest.  The intercepted
  create returns the first registered node instead, the node at (0,90): it does not use
  the guild's cached coordinate.
\<close>

theorem patched_create_ignores_guildGeo:
  "guildGeo three_nodes_state ''123'' = Some \<lparr>lat = 0, lon = 1\<rparr>
   \<and> pickBestNodeIdentifier three_nodes_state (Plain (guildGeo three_nodes_state ''123'')) = Some ''A''
   \<and> patched_create three_nodes_state \<lparr>guildId = ''123'', nodeIdentifier = None\<rparr>
       = \<lparr>guildId = ''123'', nodeIdentifier = Some ''C''\<rparr>"
proof -
  have g: "guildGeo three_nodes_state ''123'' = Some \<lparr>lat = 0, lon = 1\<rparr>"
    by (simp add: three_nodes_state_simps)
  have p: "pickBestNodeIdentifier three_nodes_state (Plain None) = Some ''C''"
    by (simp add: pickBestNodeIdentifier_def three_nodes_state_simps three_nodes_manager_def
        getSelfLocationCached_def node_key_def Let_def)
  have q: "pickBestNodeIdentifier three_nodes_state (getTargetForGuild three_nodes_state ''123'')
             = Some ''C''"
    by (simp add: pickBestNodeIdentifier_def getTargetForGuild_def three_nodes_state_simps
        three_nodes_manager_def getSelfLocationCached_def node_key_def Let_def)
  have c: "patched_create three_nodes_state \<lparr>guildId = ''123'', nodeIdentifier = None\<rparr>
       = \<lparr>guildId = ''123'', nodeIdentifier = Some ''C''\<rparr>"
    by (simp add: patched_create_def q Let_def)
  from g three_nodes_nearest c show ?thesis by simp
qed

text \<open>
  Claim C9, as the code has it.  When the caller's \<open>nodeIdentifier\<close> is a non-empty string,
  the original create receives the caller's options unchanged.  When it is absent or the
  empty string, the selected key is written into \<open>nodeIdentifier\<close> if the selection gives a
  non-empty key, and the options are unchanged otherwise.  In every case all other fields
  are the caller's.
\<close>

theorem patched_create_frame:
  "(truthy_str (nodeIdentifier opts) \<longrightarrow> patched_create s opts = opts)
   \<and> (\<not> truthy_str (nodeIdentifier opts) \<and>
        truthy_str (pickBestNodeIdentifier s (getTargetForGuild s (guildId opts))) \<longrightarrow>
        patched_create s opts =
          opts\<lparr>nodeIdentifier := pickBestNodeIdentifier s (getTargetForGuild s (guildId opts))\<rparr>)
   \<and> (\<not> truthy_str (nodeIdentifier opts) \<and>
        \<not> truthy_str (pickBestNodeIdentifier s (getTargetForGuild s (guildId opts))) \<longrightarrow>
        patched_create s opts = opts)
   \<and> guildId (patched_create s opts) = guildId opts
   \<and> PlayerOptions.more (patched_create s opts) = PlayerOptions.more opts"
  by (simp add: patched_create_def Let_def)

theorem patched_create_frame_witness:
  "truthy_str (nodeIdentifier \<lparr>guildId = ''123'', nodeIdentifier = Some ''eu''\<rparr>)
   \<and> patched_create demo_loaded \<lparr>guildId = ''123'', nodeIdentifier = Some ''eu''\<rparr>
       = \<lparr>guildId = ''123'', nodeIdentifier = Some ''eu''\<rparr>
   \<and> \<not> truthy_str (nodeIdentifier \<lparr>guildId = ''123'', nodeIdentifier = None\<rparr>)
   \<and> patched_create demo_loaded \<lparr>guildId = ''123'', nodeIdentifier = None\<rparr>
       = \<lparr>guildId = ''123'', nodeIdentifier = Some ''us''\<rparr>
   \<and> patched_create (new_MagmaConnect demo_options []) \<lparr>guildId = ''123'', nodeIdentifier = None\<rparr>
       = \<lparr>guildId = ''123'', nodeIdentifier = None\<rparr>"
proof -
  have p: "pickBestNodeIdentifier demo_loaded (getTargetForGuild demo_loaded ''123'') = Some ''us''"
    by (simp add: pickBestNodeIdentifier_def demo_loaded_simps demo_manager_def
      Let_def getSelfLocationCached_def node_key_def getTargetForGuild_def)
  have q: "pickBestNodeIdentifier (new_MagmaConnect demo_options []) (getTargetForGuild (new_MagmaConnect demo_options []) ''123'') = None"
    by (simp add: pickBestNodeIdentifier_def new_MagmaConnect_def)
  from patched_create_frame[of "\<lparr>guildId = ''123'', nodeIdentifier = Some ''eu''\<rparr>" demo_loaded]
  have a: "patched_create demo_loaded \<lparr>guildId = ''123'', nodeIdentifier = Some ''eu''\<rparr>
       = \<lparr>guildId = ''123'', nodeIdentifier = Some ''eu''\<rparr>" by simp
  from patched_create_frame[of "\<lparr>guildId = ''123'', nodeIdentifier = None\<rparr>" demo_loaded] p
  have b: "patched_create demo_loaded \<lparr>guildId = ''123'', nodeIdentifier = None\<rparr>
       = \<lparr>guildId = ''123'', nodeIdentifier = Some ''us''\<rparr>" by simp
  from patched_create_frame[of "\<lparr>guildId = ''123'', nodeIdentifier = None\<rparr>" "new_MagmaConnect demo_options []"] q
  have c: "patched_create (new_MagmaConnect demo_options []) \<lparr>guildId = ''123'', nodeIdentifier = None\<rparr>
       = \<lparr>guildId = ''123'', nodeIdentifier = None\<rparr>" by simp
  from a b c show ?thesis by simp
qed

text \<open>
  The claim as stated fails for a caller that supplies the empty string: the selected key
  replaces it.
\<close>

theorem patched_create_counterexample:
  "patched_create demo_loaded \<lparr>guildId = ''123'', nodeIdentifier = Some []\<rparr>
     = \<lparr>guildId = ''123'', nodeIdentifier = Some ''us''\<rparr>"
  by (simp add: patched_create_def pickBestNodeIdentifier_def demo_loaded_simps demo_manager_def
      Let_def getSelfLocationCached_def node_key_def getTargetForGuild_def)

section \<open>Properties of the external geo lookup\<close>

text \<open>
  Claim C7, evaluated on the code.  When the first provider answers with a JSON string, the
  lookup by host ends with a TypeError, and the second provider, which would give a
  coordinate, is not asked.  The lookup of the self location reads the same answers by
  property access and gives the coordinate.
\<close>

theorem geoByHost_throws:
  "geoByHost string_payload_net ''lavalink-eu.myhost.com'' = Inl TypeError
   \<and> getSelfLocation string_payload_net = Some \<lparr>lat = 50.11, lon = 8.68\<rparr>"
  by (simp add: geoByHost_def geoByHost_check_def string_payload_net_def getSelfLocation_def)

text \<open>
  When every truthy payload is an object or an array, the lookup by host does not throw.
\<close>

lemma geoByHost_check_object: "is_object j \<Longrightarrow> \<exists>r. geoByHost_check j = Inr r"
  by (cases j) (auto simp: geoByHost_check_def split: prod.splits bool.splits option.splits)

lemma geoByHost_loop_soft:
  assumes "\<And>u j. u \<in> set us \<Longrightarrow> catch_undefined (fetchJson net u) = Some j \<Longrightarrow> truthy j \<Longrightarrow> is_object j"
  shows "\<exists>r. geoByHost_loop net us = Inr r"
  using assms
proof (induction us)
  case Nil
  show ?case by simp
next
  case (Cons u us)
  have ih: "\<exists>r. geoByHost_loop net us = Inr r"
    by (rule Cons.IH) (use Cons.prems in auto)
  show ?case
  proof (cases "catch_undefined (fetchJson net u)")
    case None
    with ih show ?thesis by simp
  next
    case (Some j)
    show ?thesis
    proof (cases "truthy j")
      case False
      with Some ih show ?thesis by simp
    next
      case True
      with Some Cons.prems[of u j] have "is_object j" by simp
      from geoByHost_check_object[OF this] obtain r where "geoByHost_check j = Inr r" ..
      with Some True ih show ?thesis by (cases r) auto
    qed
  qed
qed

section \<open>Properties of the lifecycle\<close>

lemma fold_max_ge: "x \<in> set ts \<Longrightarrow> x \<le> fold max ts (a::nat)"
proof (induction ts arbitrary: a)
  case Nil
  then show ?case by simp
next
  case (Cons t ts)
  have mono: "\<And>b. b \<le> fold max ts b"
  proof -
    fix b show "b \<le> fold max ts b"
    proof (induction ts arbitrary: b)
      case Nil show ?case by simp
    next
      case (Cons u us)
      have "b \<le> max u b" by simp
      also have "\<dots> \<le> fold max us (max u b)" by (rule Cons.IH)
      finally show ?case by simp
    qed
  qed
  show ?case
  proof (cases "x = t")
    case True
    have "t \<le> max t a" by simp
    also have "\<dots> \<le> fold max ts (max t a)" by (rule mono)
    finally show ?thesis using True by simp
  next
    case False
    with Cons.prems have "x \<in> set ts" by simp
    from Cons.IH[OF this] show ?thesis by simp
  qed
qed

lemma fresh_handle_above: "list_all (\<lambda>t. t < fresh_handle ts) ts"
  unfolding list_all_iff fresh_handle_def
proof
  fix t assume "t \<in> set ts"
  from fold_max_ge[OF this, of 0] show "t < Suc (fold max ts 0)" by simp
qed

lemma timers_inv_new: "timers_inv ts Stopped (new_MagmaConnect opts ts)"
  by (simp add: timers_inv_def new_MagmaConnect_def fresh_handle_above)

lemma timers_inv_load:
  assumes "timers_inv ts Stopped s"
  shows "timers_inv ts (Running m) (load m s)"
proof -
  from assms have below: "list_all (\<lambda>t. t < next_handle s) ts"
    and tm: "timers s = ts"
    and iv: "\<And>h. interval s = Some h \<Longrightarrow> h < next_handle s \<and> h \<notin> set ts"
    by (auto simp: timers_inv_def split: option.splits)
  from below have fresh: "next_handle s \<notin> set ts" by (auto simp: list_all_iff)
  from below have below': "list_all (\<lambda>t. t < Suc (next_handle s)) ts"
    by (auto simp: list_all_iff)
  show ?thesis
  proof (cases "\<exists>ms. refreshIntervalMs (options s) = Some ms \<and> ms \<noteq> 0 \<and> ms > 0")
    case True
    then show ?thesis
      using fresh below' tm
      by (auto simp: timers_inv_def load_def Let_def)
  next
    case False
    then have "timers_inv ts (Running m) (load m s) = timers_inv ts (Running m) s"
      by (auto simp: timers_inv_def load_def Let_def split: option.splits)
    also have "\<dots>" using below tm iv by (auto simp: timers_inv_def split: option.splits)
    finally show ?thesis .
  qed
qed

lemma timers_unload:
  assumes "timers_inv ts ph s"
  shows "timers (unload s) = ts" and "timers_inv ts Stopped (unload s)"
proof -
  have keep: "interval (unload s) = interval s" "next_handle (unload s) = next_handle s"
    by (simp_all add: unload_def Let_def split: option.splits prod.splits)
  have t: "timers (unload s) = (case interval s of None \<Rightarrow> timers s | Some h \<Rightarrow> removeAll h (timers s))"
    by (simp add: unload_def Let_def split: option.splits prod.splits)
  show u: "timers (unload s) = ts"
  proof (cases "interval s")
    case None
    with assms t show ?thesis by (simp add: timers_inv_def)
  next
    case (Some h)
    with assms have "h \<notin> set ts" "timers s = ts \<or> timers s = h # ts"
      by (auto simp: timers_inv_def)
    with t Some show ?thesis by auto
  qed
  show "timers_inv ts Stopped (unload s)"
    using assms u keep by (auto simp: timers_inv_def split: option.splits)
qed

lemma reachable_inv:
  "reachable ts ph s \<Longrightarrow> timers_inv ts ph s \<and> patched_inv ph s"
proof (induction rule: reachable.induct)
  case (constructed opts)
  show ?case by (simp add: timers_inv_new patched_inv_def)
next
  case (loaded s m)
  then have "timers_inv ts (Running m) (load m s)" by (simp add: timers_inv_load)
  moreover have "patched_inv (Running m) (load m s)"
    by (simp add: patched_inv_def load_def Let_def split: option.splits)
  ultimately show ?case by simp
next
  case (unloaded ph s)
  then have "timers_inv ts ph s" by simp
  from timers_unload(2)[OF this] show ?case by (simp add: patched_inv_def)
next
  case (node_resolved ph s k ll)
  then show ?case by (simp add: timers_inv_def patched_inv_def split: option.splits phase.splits)
next
  case (guild_captured ph s g ll)
  then show ?case by (simp add: timers_inv_def patched_inv_def split: option.splits phase.splits)
next
  case (self_resolved ph s v)
  then show ?case by (simp add: timers_inv_def patched_inv_def split: option.splits phase.splits)
qed

text \<open>
  Claim C8, as the code has it.  For a plugin whose \<open>load\<close> is called only when it is not
  loaded (a new plugin, or after an \<open>unload\<close>; restarts included), in every state reached after
  a \<open>load\<close> with the manager \<open>m\<close>, \<open>unload\<close> changes two things only: the runtime's timers are
  again those from before the plugin, and the manager's \<open>create\<close> and \<open>updateVoiceState\<close> are the
  functions captured by that \<open>load\<close> (the manager's functions at that time, bound to it).  The
  three caches keep their entries.
\<close>

theorem unload_restores:
  "reachable ts (Running m) s \<Longrightarrow>
     unload s = s\<lparr>timers := ts,
                  manager := Some (m\<lparr>create := Bound (create m),
                                     updateVoiceState := Bound (updateVoiceState m)\<rparr>)\<rparr>
     \<and> nodeGeo (unload s) = nodeGeo s
     \<and> guildGeo (unload s) = guildGeo s
     \<and> selfGeo (unload s) = selfGeo s"
proof -
  assume "reachable ts (Running m) s"
  then have inv: "timers_inv ts (Running m) s" "patched_inv (Running m) s"
    using reachable_inv by blast+
  from timers_unload(1)[OF inv(1)] have t: "timers (unload s) = ts" .
  have u: "unload s = s\<lparr>timers := timers (unload s),
                  manager := Some (m\<lparr>create := Bound (create m),
                                     updateVoiceState := Bound (updateVoiceState m)\<rparr>)\<rparr>"
    using inv(2) by (simp add: patched_inv_def unload_def Let_def split: option.splits)
  show ?thesis
    by (subst u, subst (2) u, subst (3) u, subst (4) u) (simp add: t)
qed

theorem unload_restores_witness:
  "reachable [3, 7]
      (Running (demo_manager\<lparr>create := Bound (HostFn 0), updateVoiceState := Bound (HostFn 1)\<rparr>))
      restarted
   \<and> timers restarted = [9, 3, 7]
   \<and> timers (unload restarted) = [3, 7]
   \<and> manager (unload restarted)
       = Some (demo_manager\<lparr>create := Bound (Bound (HostFn 0)),
                             updateVoiceState := Bound (Bound (HostFn 1))\<rparr>)
   \<and> guildGeo (unload restarted) = [''123'' \<mapsto> \<lparr>lat = 50.11, lon = 8.68\<rparr>]"
proof -
  let ?m = "demo_manager\<lparr>create := Bound (HostFn 0), updateVoiceState := Bound (HostFn 1)\<rparr>"
  have "reachable [3, 7] Stopped (new_MagmaConnect demo_options [3, 7])"
    by (rule reachable.constructed)
  then have "reachable [3, 7] (Running demo_manager) demo_loaded"
    unfolding demo_loaded_def by (rule reachable.loaded)
  from reachable.guild_captured[OF this, of "''123''" "\<lparr>lat = 50.11, lon = 8.68\<rparr>"]
  have "reachable [3, 7] (Running demo_manager)
          (demo_loaded\<lparr>guildGeo := [''123'' \<mapsto> \<lparr>lat = 50.11, lon = 8.68\<rparr>]\<rparr>)"
    by (simp add: demo_loaded_simps)
  then have "reachable [3, 7] Stopped
          (unload (demo_loaded\<lparr>guildGeo := [''123'' \<mapsto> \<lparr>lat = 50.11, lon = 8.68\<rparr>]\<rparr>))"
    by (rule reachable.unloaded)
  then have r: "reachable [3, 7] (Running ?m) restarted"
    unfolding restarted_def by (rule reachable.loaded)
  have t: "timers restarted = [9, 3, 7]"
    by (simp add: restarted_def demo_loaded_def load_def unload_def new_MagmaConnect_def
        demo_options_def demo_manager_def Let_def fresh_handle_def)
  have g: "guildGeo restarted = [''123'' \<mapsto> \<lparr>lat = 50.11, lon = 8.68\<rparr>]"
    by (simp add: restarted_def demo_loaded_def load_def unload_def new_MagmaConnect_def
        demo_options_def demo_manager_def Let_def fresh_handle_def)
  have c: "create ?m = Bound (HostFn 0)" "updateVoiceState ?m = Bound (HostFn 1)"
    by simp_all
  from unload_restores[OF r] have u: "unload restarted = restarted\<lparr>timers := [3, 7],
      manager := Some (?m\<lparr>create := Bound (create ?m),
                          updateVoiceState := Bound (updateVoiceState ?m)\<rparr>)\<rparr>"
    and gu: "guildGeo (unload restarted) = guildGeo restarted"
    by simp_all
  have tu: "timers (unload restarted) = [3, 7]" by (subst u) simp
  have mu: "manager (unload restarted)
       = Some (demo_manager\<lparr>create := Bound (Bound (HostFn 0)),
                             updateVoiceState := Bound (Bound (HostFn 1))\<rparr>)"
    by (subst u) simp
  from r t tu mu gu g show ?thesis by simp
qed

text \<open>
  The claim as stated, for every state after a \<open>load\<close>, fails when \<open>load\<close> runs on a plugin that
  is loaded already: the second \<open>load\<close> overwrites the timer handle and captures the patched
  functions, so after \<open>unload\<close> the first refresh timer (handle 8) is still active and the
  manager's functions are bound copies of the plugin's closures, not the host's.
\<close>

theorem unload_counterexample:
  "timers double_loaded = [9, 8, 3, 7]
   \<and> timers (unload double_loaded) = [8, 3, 7]
   \<and> manager (unload double_loaded)
       = Some (demo_manager\<lparr>create := Bound PatchedCreate,
                             updateVoiceState := Bound PatchedUpdateVoiceState\<rparr>)"
  by (simp add: double_loaded_def demo_loaded_def load_def unload_def new_MagmaConnect_def
      demo_options_def demo_manager_def Let_def fresh_handle_def)

end
